theory Spec2Isabelle
  imports Main "HOL-Library.Multiset"
begin

section \<open>Data model\<close>

text \<open>
  A JavaScript \<open>Date\<close> that passed the schema's \<open>z.date()\<close> check is a valid date: it
  holds an integral time value, the milliseconds since the epoch. (An Invalid Date, whose
  time value is NaN, never reaches a validated entry; see \<open>parseType\<close> below.)
  \<open>Number d\<close> is JavaScript's \<open>Number(d)\<close> on such a date.
\<close>

datatype date = Date int

fun Number :: "date \<Rightarrow> int" where
  "Number (Date t) = t"

text \<open>
  The typed data of an entry of the \<open>posts\<close> collection, as the schema of
  \<open>src/content/config.ts\<close> produces it, and the entry handed to the pages
  (\<open>slug\<close>, \<open>data\<close>, opaque \<open>body\<close>).
\<close>

record post_data =
  title :: string
  description :: string
  published :: date
  og_image_path :: "string option"

record entry =
  slug :: string
  data :: post_data
  body :: string

section \<open>Collection utilities (\<open>src/lib/utils.ts\<close>)\<close>

text \<open>
  \<open>Array.prototype.toSorted(comparefn)\<close> copies the array and sorts the copy. The sort is
  stable, and an element \<open>x\<close> goes after \<open>y\<close> exactly when \<open>comparefn(x, y) > 0\<close>;
  for a consistent comparator this determines the result, which stable insertion computes.
\<close>

fun insertBy :: "('a \<Rightarrow> 'a \<Rightarrow> int) \<Rightarrow> 'a \<Rightarrow> 'a list \<Rightarrow> 'a list" where
  "insertBy cmp x [] = [x]"
| "insertBy cmp x (y # ys) = (if cmp x y > 0 then y # insertBy cmp x ys else x # y # ys)"

definition toSorted :: "('a \<Rightarrow> 'a \<Rightarrow> int) \<Rightarrow> 'a list \<Rightarrow> 'a list" where
  "toSorted cmp xs = foldr (insertBy cmp) xs []"

text \<open>
  The comparator of \<open>sortByPublished\<close>:
  \<^verbatim>\<open>(a, b) => Number(b.data.published) - Number(a.data.published)\<close>.
  Time values are integers of magnitude at most 8.64e15, so the floating-point difference
  has the sign of the exact one, and the sort reads nothing but that sign.
\<close>

definition comparePublished :: "'a entry_scheme \<Rightarrow> 'a entry_scheme \<Rightarrow> int" where
  "comparePublished a b = Number (published (data b)) - Number (published (data a))"

definition sortByPublished :: "'a entry_scheme list \<Rightarrow> 'a entry_scheme list" where
  "sortByPublished collection = toSorted comparePublished collection"

text \<open>
  \<open>precedes x y xs\<close>: some occurrence of \<open>x\<close> in \<open>xs\<close> lies before some occurrence
  of \<open>y\<close>.
\<close>

fun precedes :: "'a \<Rightarrow> 'a \<Rightarrow> 'a list \<Rightarrow> bool" where
  "precedes x y [] = False"
| "precedes x y (z # zs) = ((z = x \<and> y \<in> set zs) \<or> precedes x y zs)"

text \<open>
  The same call on the heap. Arrays live in a store, addressed by their index in it;
  \<open>toSorted\<close> allocates a fresh array for its result and writes to no other. A reference
  that the store does not hold has no run to model (\<open>None\<close>).
\<close>

type_synonym 'a store = "'a list list"

definition toSorted_ref :: "('a \<Rightarrow> 'a \<Rightarrow> int) \<Rightarrow> nat \<Rightarrow> 'a store \<Rightarrow> (nat \<times> 'a store) option" where
  "toSorted_ref cmp r h =
     (if r < length h then Some (length h, h @ [toSorted cmp (h ! r)]) else None)"

definition sortByPublished_ref ::
    "nat \<Rightarrow> 'a entry_scheme store \<Rightarrow> (nat \<times> 'a entry_scheme store) option" where
  "sortByPublished_ref collection h = toSorted_ref comparePublished collection h"

section \<open>Frontmatter and the schema (\<open>src/content/config.ts\<close>)\<close>

text \<open>
  A frontmatter block is a mapping from field names to untyped YAML values; a field that
  is absent reads as \<open>undefined\<close> (\<open>None\<close>). \<open>VDate x\<close> is the \<open>Date\<close> object made
  from the number \<open>x\<close> (\<open>None\<close> for NaN): its time value is \<open>TimeClip x\<close>, which is
  NaN, an Invalid Date, when \<open>x\<close> is NaN or lies outside the range of 100,000,000 days
  around the epoch.
\<close>

definition TimeClip :: "int option \<Rightarrow> int option" where
  "TimeClip x =
     (case x of None \<Rightarrow> None
      | Some t \<Rightarrow> if \<bar>t\<bar> \<le> 8640000000000000 then Some t else None)"

datatype rawval =
    VString string
  | VNumber int
  | VBoolean bool
  | VNull
  | VDate "int option"
  | VArray "rawval list"
  | VObject "(string \<times> rawval) list"

type_synonym frontmatter = "string \<rightharpoonup> rawval"

datatype parsedType =
  PUndefined | PString | PNumber | PBoolean | PNull | PDate | PArray | PObject

fun getParsedType :: "rawval option \<Rightarrow> parsedType" where
  "getParsedType None = PUndefined"
| "getParsedType (Some (VString s)) = PString"
| "getParsedType (Some (VNumber n)) = PNumber"
| "getParsedType (Some (VBoolean b)) = PBoolean"
| "getParsedType (Some VNull) = PNull"
| "getParsedType (Some (VDate t)) = PDate"
| "getParsedType (Some (VArray vs)) = PArray"
| "getParsedType (Some (VObject kvs)) = PObject"

text \<open>The two shapes of value the schema asks for: a text, and a date that is not invalid.\<close>

fun isText :: "rawval option \<Rightarrow> bool" where
  "isText (Some (VString s)) = True"
| "isText v = False"

fun isValidDate :: "rawval option \<Rightarrow> bool" where
  "isValidDate (Some (VDate x)) = (TimeClip x \<noteq> None)"
| "isValidDate v = False"

text \<open>
  The schema constructors the collection uses: \<open>z.string()\<close>, \<open>z.date()\<close>, and
  \<open>z.ostring()\<close>, which is \<open>z.string().optional()\<close>. An issue carries the path of the
  field and its code: \<open>invalid_type\<close> with the expected and the received type (received
  \<open>undefined\<close> is the message "Required"), or \<open>invalid_date\<close>.
\<close>

datatype zodType = ZodString | ZodDate | ZodOptional zodType

datatype issueCode = invalid_type parsedType parsedType | invalid_date

datatype issue = Issue (path: string) (code: issueCode)

fun parseType :: "zodType \<Rightarrow> rawval option \<Rightarrow> issueCode option" where
  "parseType ZodString v =
     (case v of Some (VString s) \<Rightarrow> None
      | _ \<Rightarrow> Some (invalid_type PString (getParsedType v)))"
| "parseType ZodDate v =
     (case v of
        Some (VDate x) \<Rightarrow> (case TimeClip x of None \<Rightarrow> Some invalid_date | Some t \<Rightarrow> None)
      | _ \<Rightarrow> Some (invalid_type PDate (getParsedType v)))"
| "parseType (ZodOptional inner) v =
     (case v of None \<Rightarrow> None | Some x \<Rightarrow> parseType inner v)"

text \<open>The shape given to \<open>z.object\<close> in \<open>postsCollection\<close>, in the order it is written.\<close>

definition postsShape :: "(string \<times> zodType) list" where
  "postsShape =
     [(''title'', ZodString),
      (''description'', ZodString),
      (''published'', ZodDate),
      (''og_image_path'', ZodOptional ZodString)]"

text \<open>
  \<open>z.object\<close> checks every key of its shape and collects all issues; keys outside the
  shape are stripped without complaint.
\<close>

definition fieldIssues :: "zodType \<Rightarrow> string \<Rightarrow> frontmatter \<Rightarrow> issue list" where
  "fieldIssues t k fm = (case parseType t (fm k) of None \<Rightarrow> [] | Some c \<Rightarrow> [Issue k c])"

definition objectIssues :: "(string \<times> zodType) list \<Rightarrow> frontmatter \<Rightarrow> issue list" where
  "objectIssues shape fm = concat (map (\<lambda>(k, t). fieldIssues t k fm) shape)"

text \<open>
  Reading a checked field into its type. The last equation of each is never reached from
  \<open>parsePost\<close>, which reads only after the shape reported no issue (lemma
  \<open>parsePost_fields\<close>).
\<close>

fun asString :: "rawval option \<Rightarrow> string" where
  "asString (Some (VString s)) = s"
| "asString v = []"

fun asDate :: "rawval option \<Rightarrow> date" where
  "asDate (Some (VDate (Some t))) = Date t"
| "asDate v = Date 0"

definition parsePost :: "frontmatter \<Rightarrow> issue list + post_data" where
  "parsePost fm =
     (case objectIssues postsShape fm of
        [] \<Rightarrow> Inr \<lparr> title = asString (fm ''title''),
                    description = asString (fm ''description''),
                    published = asDate (fm ''published''),
                    og_image_path = map_option (\<lambda>v. asString (Some v)) (fm ''og_image_path'') \<rparr>
      | i # is \<Rightarrow> Inl (i # is))"

section \<open>Loading the collection\<close>

text \<open>
  A source document as the content loader hands it over: its slug (derived from where the
  document is stored), its frontmatter and its body. Loading validates every document
  against the schema; the first document that fails aborts the build with an error that
  names the document and carries the issues found in it.
\<close>

record document =
  doc_slug :: string
  doc_frontmatter :: frontmatter
  doc_body :: string

datatype build_error = InvalidFrontmatter string "issue list"

fun loadCollection :: "document list \<Rightarrow> build_error + entry list" where
  "loadCollection [] = Inr []"
| "loadCollection (d # ds) =
     (case parsePost (doc_frontmatter d) of
        Inl is \<Rightarrow> Inl (InvalidFrontmatter (doc_slug d) is)
      | Inr pd \<Rightarrow>
          (case loadCollection ds of
             Inl e \<Rightarrow> Inl e
           | Inr es \<Rightarrow> Inr (\<lparr> slug = doc_slug d, data = pd, body = doc_body d \<rparr> # es)))"

definition getCollection :: "document list \<Rightarrow> (entry \<Rightarrow> bool) \<Rightarrow> build_error + entry list" where
  "getCollection docs keep =
     (case loadCollection docs of Inl e \<Rightarrow> Inl e | Inr es \<Rightarrow> Inr (filter keep es))"

section \<open>The blog index (\<open>src/pages/blog.astro\<close>)\<close>

text \<open>
  The filter callback returns \<open>data.published\<close> itself, which the framework reads as a
  boolean; a \<open>Date\<close> object is truthy.
\<close>

fun toBoolean :: "date \<Rightarrow> bool" where
  "toBoolean (Date t) = True"

text \<open>
  \<open>Date.prototype.toISOString\<close>, by the date arithmetic of the ECMAScript standard:
  the time value is split into a day number and the time within the day, the day number
  into year, month (from 0) and date (from 1) of the proleptic Gregorian calendar, and the
  fields are written as \<open>YYYY-MM-DDTHH:mm:ss.sssZ\<close>; a year outside 0..9999 is written
  with a sign and six digits.
\<close>

definition msPerDay :: int where
  "msPerDay = 86400000"

definition Day :: "int \<Rightarrow> int" where
  "Day t = t div msPerDay"

definition TimeWithinDay :: "int \<Rightarrow> int" where
  "TimeWithinDay t = t mod msPerDay"

definition DaysInYear :: "int \<Rightarrow> int" where
  "DaysInYear y =
     (if y mod 4 \<noteq> 0 then 365
      else if y mod 100 \<noteq> 0 then 366
      else if y mod 400 \<noteq> 0 then 365
      else 366)"

definition DayFromYear :: "int \<Rightarrow> int" where
  "DayFromYear y =
     365 * (y - 1970) + (y - 1969) div 4 - (y - 1901) div 100 + (y - 1601) div 400"

text \<open>
  The standard defines \<open>YearFromTime t\<close> as the largest year whose first day is not after
  \<open>t\<close>. It is computed from an estimate that is off by at most one year (lemmas
  \<open>YearFromTime_bounds\<close> and \<open>YearFromTime_unique\<close> show that the result is that
  year).
\<close>

definition YearFromTime :: "int \<Rightarrow> int" where
  "YearFromTime t =
     (let d = Day t; y = 1970 + (400 * d) div 146097
      in if DayFromYear (y + 1) \<le> d then y + 1
         else if d < DayFromYear y then y - 1
         else y)"

definition InLeapYear :: "int \<Rightarrow> int" where
  "InLeapYear t = (if DaysInYear (YearFromTime t) = 366 then 1 else 0)"

definition DayWithinYear :: "int \<Rightarrow> int" where
  "DayWithinYear t = Day t - DayFromYear (YearFromTime t)"

definition MonthFromTime :: "int \<Rightarrow> int" where
  "MonthFromTime t =
     (let d = DayWithinYear t; l = InLeapYear t
      in if d < 31 then 0
         else if d < 59 + l then 1
         else if d < 90 + l then 2
         else if d < 120 + l then 3
         else if d < 151 + l then 4
         else if d < 181 + l then 5
         else if d < 212 + l then 6
         else if d < 243 + l then 7
         else if d < 273 + l then 8
         else if d < 304 + l then 9
         else if d < 334 + l then 10
         else 11)"

definition DateFromTime :: "int \<Rightarrow> int" where
  "DateFromTime t =
     (let d = DayWithinYear t; l = InLeapYear t; m = MonthFromTime t
      in if m = 0 then d + 1
         else if m = 1 then d - 30
         else if m = 2 then d - 58 - l
         else if m = 3 then d - 89 - l
         else if m = 4 then d - 119 - l
         else if m = 5 then d - 150 - l
         else if m = 6 then d - 180 - l
         else if m = 7 then d - 211 - l
         else if m = 8 then d - 242 - l
         else if m = 9 then d - 272 - l
         else if m = 10 then d - 303 - l
         else d - 333 - l)"

definition HourFromTime :: "int \<Rightarrow> int" where
  "HourFromTime t = (t div 3600000) mod 24"

definition MinFromTime :: "int \<Rightarrow> int" where
  "MinFromTime t = (t div 60000) mod 60"

definition SecFromTime :: "int \<Rightarrow> int" where
  "SecFromTime t = (t div 1000) mod 60"

definition msFromTime :: "int \<Rightarrow> int" where
  "msFromTime t = t mod 1000"

definition digitChar :: "nat \<Rightarrow> char" where
  "digitChar n = ''0123456789'' ! (n mod 10)"

text \<open>\<open>digits w n\<close>: the last \<open>w\<close> decimal digits of \<open>n\<close>, zero-padded.\<close>

fun digits :: "nat \<Rightarrow> nat \<Rightarrow> string" where
  "digits 0 n = []"
| "digits (Suc w) n = digits w (n div 10) @ [digitChar n]"

definition yearString :: "int \<Rightarrow> string" where
  "yearString y =
     (if 0 \<le> y \<and> y \<le> 9999 then digits 4 (nat y)
      else (if y < 0 then ''-'' else ''+'') @ digits 6 (nat \<bar>y\<bar>))"

fun toISOString :: "date \<Rightarrow> string" where
  "toISOString (Date t) =
     yearString (YearFromTime t) @ ''-'' @ digits 2 (nat (MonthFromTime t + 1))
       @ ''-'' @ digits 2 (nat (DateFromTime t))
       @ ''T'' @ digits 2 (nat (HourFromTime t))
       @ '':'' @ digits 2 (nat (MinFromTime t))
       @ '':'' @ digits 2 (nat (SecFromTime t))
       @ ''.'' @ digits 3 (nat (msFromTime t)) @ ''Z''"

text \<open>
  The way back, for the properties of \<open>toISOString\<close>: the shape of a date-time string
  of the standard (\<open>d\<close> in the pattern stands for a decimal digit), and the reading of
  such a string into the date it denotes, by \<open>MakeDay\<close>, \<open>MakeTime\<close>, \<open>MakeDate\<close>
  and \<open>TimeClip\<close> of the standard. A string of another shape, or one whose month, day
  or time of day does not exist, denotes no date.
\<close>

definition isDigit :: "char \<Rightarrow> bool" where
  "isDigit c = (c \<in> set ''0123456789'')"

definition digitVal :: "char \<Rightarrow> nat" where
  "digitVal c = length (takeWhile (\<lambda>d. d \<noteq> c) ''0123456789'')"

definition parseNat :: "string \<Rightarrow> nat" where
  "parseNat s = foldl (\<lambda>acc c. 10 * acc + digitVal c) 0 s"

definition matchChar :: "char \<Rightarrow> char \<Rightarrow> bool" where
  "matchChar p c = (if p = CHR ''d'' then isDigit c else p = c)"

definition isISOString :: "string \<Rightarrow> bool" where
  "isISOString s =
     (list_all2 matchChar ''dddd-dd-ddTdd:dd:dd.dddZ'' s
      \<or> list_all2 matchChar ''+dddddd-dd-ddTdd:dd:dd.dddZ'' s
      \<or> list_all2 matchChar ''-dddddd-dd-ddTdd:dd:dd.dddZ'' s)"

text \<open>
  \<open>DaysBeforeMonth m l\<close>: the days of a year before its month \<open>m\<close> (from 0), and
  \<open>DaysInMonth m l\<close>: the days of that month, in a year with leap flag \<open>l\<close>.
\<close>

definition DaysBeforeMonth :: "int \<Rightarrow> int \<Rightarrow> int" where
  "DaysBeforeMonth m l =
     (if m = 0 then 0
      else if m = 1 then 31
      else if m = 2 then 59 + l
      else if m = 3 then 90 + l
      else if m = 4 then 120 + l
      else if m = 5 then 151 + l
      else if m = 6 then 181 + l
      else if m = 7 then 212 + l
      else if m = 8 then 243 + l
      else if m = 9 then 273 + l
      else if m = 10 then 304 + l
      else 334 + l)"

definition DaysInMonth :: "int \<Rightarrow> int \<Rightarrow> int" where
  "DaysInMonth m l =
     (if m = 1 then 28 + l
      else if m = 3 \<or> m = 5 \<or> m = 8 \<or> m = 10 then 30 else 31)"

definition MakeTime :: "int \<Rightarrow> int \<Rightarrow> int \<Rightarrow> int \<Rightarrow> int" where
  "MakeTime hour minute sec ms = hour * 3600000 + minute * 60000 + sec * 1000 + ms"

definition MakeDay :: "int \<Rightarrow> int \<Rightarrow> int \<Rightarrow> int" where
  "MakeDay year month dt =
     DayFromYear year + DaysBeforeMonth month (if DaysInYear year = 366 then 1 else 0) + dt - 1"

definition MakeDate :: "int \<Rightarrow> int \<Rightarrow> int" where
  "MakeDate day time = day * msPerDay + time"

definition parseISO :: "string \<Rightarrow> date option" where
  "parseISO s =
     (if \<not> isISOString s then None
      else
        let signed = (hd s = CHR ''+'' \<or> hd s = CHR ''-'');
            year = (if signed
                    then (if hd s = CHR ''-'' then - int (parseNat (take 6 (tl s)))
                          else int (parseNat (take 6 (tl s))))
                    else int (parseNat (take 4 s)));
            r = drop (if signed then 7 else 4) s;
            field = (\<lambda>i n. int (parseNat (take n (drop i r))));
            month = field 1 2; dt = field 4 2;
            hour = field 7 2; minute = field 10 2; sec = field 13 2; ms = field 16 3;
            leap = (if DaysInYear year = 366 then 1 else 0)
        in if 1 \<le> month \<and> month \<le> 12 \<and> 1 \<le> dt \<and> dt \<le> DaysInMonth (month - 1) leap
              \<and> hour < 24 \<and> minute < 60 \<and> sec < 60
           then map_option Date
                  (TimeClip (Some (MakeDate (MakeDay year (month - 1) dt)
                                            (MakeTime hour minute sec ms))))
           else None)"

text \<open>
  One list item of the page: the link target, the \<open>datetime\<close> attribute of the
  \<open>time\<close> element and its text, the heading and the paragraph. (The specification
  calls \<open>href\<close> the \<open>url\<close> and \<open>datetime\<close> the \<open>isoTimestamp\<close> of the display
  record.) \<open>humanTime\<close> formats in the ambient locale, so it is a parameter here.
\<close>

record item =
  href :: string
  datetime :: string
  time_text :: string
  heading :: string
  summary :: string

definition renderItem :: "(date \<Rightarrow> string) \<Rightarrow> entry \<Rightarrow> item" where
  "renderItem humanTime post =
     \<lparr> href = ''/blog/'' @ slug post,
       datetime = toISOString (published (data post)),
       time_text = humanTime (published (data post)),
       heading = title (data post),
       summary = description (data post) \<rparr>"

definition blogPage :: "(date \<Rightarrow> string) \<Rightarrow> document list \<Rightarrow> build_error + item list" where
  "blogPage humanTime docs =
     (case getCollection docs (\<lambda>e. toBoolean (published (data e))) of
        Inl e \<Rightarrow> Inl e
      | Inr posts \<Rightarrow> Inr (map (renderItem humanTime) (sortByPublished posts)))"

section \<open>Example documents\<close>

text \<open>
  The documents of the specification's scenarios: two dated posts (7 January and 3 March
  2024, noon UTC), one without \<open>published\<close>, one without \<open>title\<close>; and the
  frontmatter of \<open>verifying-slack-requests-elixir-phoenix.mdx\<close> (its description
  shortened).
\<close>

definition docA :: document where
  "docA = \<lparr> doc_slug = ''a'',
      doc_frontmatter = [''title'' \<mapsto> VString ''A'', ''description'' \<mapsto> VString ''d1'',
        ''published'' \<mapsto> VDate (Some 1704628800000)],
      doc_body = [] \<rparr>"

definition docB :: document where
  "docB = \<lparr> doc_slug = ''b'',
      doc_frontmatter = [''title'' \<mapsto> VString ''B'', ''description'' \<mapsto> VString ''d2'',
        ''published'' \<mapsto> VDate (Some 1709467200000)],
      doc_body = [] \<rparr>"

definition docC :: document where
  "docC = \<lparr> doc_slug = ''c'',
      doc_frontmatter = [''title'' \<mapsto> VString ''C'', ''description'' \<mapsto> VString ''d3''],
      doc_body = [] \<rparr>"

definition docUntitled :: document where
  "docUntitled = \<lparr> doc_slug = ''untitled'',
      doc_frontmatter = [''description'' \<mapsto> VString ''d1'',
        ''published'' \<mapsto> VDate (Some 1704628800000)],
      doc_body = [] \<rparr>"

definition docSlack :: document where
  "docSlack = \<lparr> doc_slug = ''verifying-slack-requests-elixir-phoenix'',
      doc_frontmatter = [''title'' \<mapsto> VString ''Verifying Slack Requests in Phoenix'',
        ''description'' \<mapsto> VString ''Using signature verification'',
        ''published'' \<mapsto> VDate (Some 1714219200000),
        ''og_image_path'' \<mapsto> VString ''/og/slack-verification.png''],
      doc_body = [] \<rparr>"

text \<open>Entries as the loader builds them; \<open>postA2\<close> shares its date with \<open>postA\<close>.\<close>

definition mkPost :: "string \<Rightarrow> string \<Rightarrow> int \<Rightarrow> entry" where
  "mkPost s t p =
     \<lparr> slug = s,
       data = \<lparr> title = t, description = [], published = Date p, og_image_path = None \<rparr>,
       body = [] \<rparr>"

definition postA :: entry where
  "postA = mkPost ''a'' ''A'' 1704628800000"

definition postA2 :: entry where
  "postA2 = mkPost ''a2'' ''A2'' 1704628800000"

definition postB :: entry where
  "postB = mkPost ''b'' ''B'' 1709467200000"

section \<open>Properties of sorting\<close>

lemma sortByPublished_sort_key:
  "sortByPublished ps = sort_key (\<lambda>p. - Number (published (data p))) ps"
proof -
  have ins: "insertBy comparePublished x ys
      = insort_key (\<lambda>p. - Number (published (data p))) x ys" for x :: "'a entry_scheme" and ys
    by (induction ys) (auto simp: comparePublished_def)
  have "foldr (insertBy comparePublished) ps []
      = foldr (insort_key (\<lambda>p. - Number (published (data p)))) ps []"
    by (induction ps) (simp_all add: ins)
  then show ?thesis
    by (simp add: sortByPublished_def toSorted_def sort_key_def)
qed

lemma sortByPublished_sorted:
  "sorted_wrt (\<lambda>a b. Number (published (data b)) \<le> Number (published (data a)))
     (sortByPublished ps)"
proof -
  have "sorted (map (\<lambda>p. - Number (published (data p))) (sortByPublished ps))"
    by (simp add: sortByPublished_sort_key)
  then show ?thesis
    by (simp add: sorted_map)
qed

lemma precedes_in_set: "precedes x y xs \<Longrightarrow> x \<in> set xs \<and> y \<in> set xs"
  by (induction xs) auto

lemma precedes_filter:
  "P x \<Longrightarrow> P y \<Longrightarrow> precedes x y (filter P xs) = precedes x y xs"
  by (induction xs) auto

lemma sorted_wrt_precedes:
  assumes "sorted_wrt R xs" and "x \<in> set xs" and "y \<in> set xs"
    and "\<not> R y x" and "x \<noteq> y"
  shows "precedes x y xs"
  using assms
proof (induction xs)
  case Nil
  then show ?case by simp
next
  case (Cons z zs)
  show ?case
  proof (cases "z = x")
    case True
    with Cons.prems show ?thesis by auto
  next
    case False
    with Cons.prems have "x \<in> set zs" by simp
    with Cons.prems have "y \<noteq> z" by auto
    with Cons.prems \<open>x \<in> set zs\<close> have "precedes x y zs"
      using Cons.IH by simp
    then show ?thesis by simp
  qed
qed

lemma sorted_wrt_not_precedes:
  "sorted_wrt R xs \<Longrightarrow> \<not> R y x \<Longrightarrow> \<not> precedes y x xs"
  by (induction xs) auto

lemma mset_insertBy: "mset (insertBy cmp x ys) = add_mset x (mset ys)"
  by (induction ys) simp_all

lemma mset_toSorted: "mset (toSorted cmp xs) = mset xs"
  unfolding toSorted_def by (induction xs) (simp_all add: mset_insertBy)

section \<open>Properties of the date arithmetic\<close>


lemma div_bounds:
  fixes x n :: int
  assumes "0 < n"
  shows "n * (x div n) \<le> x \<and> x < n * (x div n) + n"
proof -
  have "x = n * (x div n) + x mod n" by simp
  moreover have "0 \<le> x mod n" "x mod n < n" using assms by simp_all
  ultimately show ?thesis by linarith
qed

lemma div_step:
  fixes x n :: int
  assumes "1 < n"
  shows "(x + 1) div n = x div n + (if (x + 1) mod n = 0 then 1 else 0)"
proof -
  have r: "0 \<le> x mod n" "x mod n < n" using assms by simp_all
  have x1: "x + 1 = n * (x div n) + (x mod n + 1)" by simp
  show ?thesis
  proof (cases "x mod n + 1 = n")
    case True
    from x1 True have "x + 1 = n * (x div n) + n" by simp
    then have e: "x + 1 = n * (x div n + 1) + 0" by (simp add: distrib_left)
    from assms have "(x + 1) div n = x div n + 1"
      by (intro int_div_pos_eq [OF e]) simp_all
    moreover from assms have "(x + 1) mod n = 0"
      by (intro int_mod_pos_eq [OF e]) simp_all
    ultimately show ?thesis by simp
  next
    case False
    with r have r': "0 \<le> x mod n + 1" "x mod n + 1 < n" by simp_all
    have "(x + 1) div n = x div n"
      by (rule int_div_pos_eq [OF x1 r'])
    moreover have "(x + 1) mod n = x mod n + 1"
      by (rule int_mod_pos_eq [OF x1 r'])
    ultimately show ?thesis using r by simp
  qed
qed

lemma mod_shift:
  fixes y n k :: int
  assumes "k mod n = 0"
  shows "(y - k) mod n = y mod n"
  using assms by (metis diff_zero mod_diff_right_eq)

lemma leap_mods:
  fixes y :: int
  shows "y mod 100 = 0 \<Longrightarrow> y mod 4 = 0" and "y mod 400 = 0 \<Longrightarrow> y mod 100 = 0"
  using mod_mod_cancel [of 4 100 y] mod_mod_cancel [of 100 400 y] by simp_all

lemma DayFromYear_step: "DayFromYear (y + 1) = DayFromYear y + DaysInYear y"
proof -
  have s4: "y + 1 - 1969 = (y - 1969) + 1" "y - 1969 + 1 = y - 1968" 
    and s100: "y + 1 - 1901 = (y - 1901) + 1" "y - 1901 + 1 = y - 1900"
    and s400: "y + 1 - 1601 = (y - 1601) + 1" "y - 1601 + 1 = y - 1600"
    by simp_all
  have a: "(y + 1 - 1969) div 4 = (y - 1969) div 4 + (if y mod 4 = 0 then 1 else 0)"
    unfolding s4(1) using div_step [of 4 "y - 1969"] mod_shift [of 1968 4 y]
    by (simp only: s4(2)) simp
  have b: "(y + 1 - 1901) div 100 = (y - 1901) div 100 + (if y mod 100 = 0 then 1 else 0)"
    unfolding s100(1) using div_step [of 100 "y - 1901"] mod_shift [of 1900 100 y]
    by (simp only: s100(2)) simp
  have c: "(y + 1 - 1601) div 400 = (y - 1601) div 400 + (if y mod 400 = 0 then 1 else 0)"
    unfolding s400(1) using div_step [of 400 "y - 1601"] mod_shift [of 1600 400 y]
    by (simp only: s400(2)) simp
  define A where "A = (y - 1969) div 4"
  define B where "B = (y - 1901) div 100"
  define C where "C = (y - 1601) div 400"
  have "DayFromYear (y + 1) = 365 * (y + 1 - 1970) + (A + (if y mod 4 = 0 then 1 else 0))
      - (B + (if y mod 100 = 0 then 1 else 0)) + (C + (if y mod 400 = 0 then 1 else 0))"
    unfolding DayFromYear_def A_def B_def C_def by (simp only: a b c)
  moreover have "DayFromYear y = 365 * (y - 1970) + A - B + C"
    unfolding DayFromYear_def A_def B_def C_def by simp
  ultimately show ?thesis
    using leap_mods [of y] by (simp add: DaysInYear_def)
qed

lemma DayFromYear_estimate_aux:
  fixes y a b c :: int
  assumes "4 * a \<le> y - 1969" "y - 1969 < 4 * a + 4"
    and "100 * b \<le> y - 1901" "y - 1901 < 100 * b + 100"
    and "400 * c \<le> y - 1601" "y - 1601 < 400 * c + 400"
  shows "146097 * (y - 1970) - 506 \<le> 400 * (365 * (y - 1970) + a - b + c)"
    and "400 * (365 * (y - 1970) + a - b + c) \<le> 146097 * (y - 1970) + 589"
  using assms by (simp_all add: algebra_simps)

lemma DayFromYear_estimate:
  "146097 * (y - 1970) - 506 \<le> 400 * DayFromYear y"
  "400 * DayFromYear y \<le> 146097 * (y - 1970) + 589"
proof -
  have a: "4 * ((y - 1969) div 4) \<le> y - 1969 \<and> y - 1969 < 4 * ((y - 1969) div 4) + 4"
    by (rule div_bounds) simp
  have b: "100 * ((y - 1901) div 100) \<le> y - 1901
      \<and> y - 1901 < 100 * ((y - 1901) div 100) + 100"
    by (rule div_bounds) simp
  have c: "400 * ((y - 1601) div 400) \<le> y - 1601
      \<and> y - 1601 < 400 * ((y - 1601) div 400) + 400"
    by (rule div_bounds) simp
  from a b c show "146097 * (y - 1970) - 506 \<le> 400 * DayFromYear y"
    unfolding DayFromYear_def by (intro DayFromYear_estimate_aux(1)) simp_all
  from a b c show "400 * DayFromYear y \<le> 146097 * (y - 1970) + 589"
    unfolding DayFromYear_def by (intro DayFromYear_estimate_aux(2)) simp_all
qed

lemma DaysInYear_range: "DaysInYear y = 365 \<or> DaysInYear y = 366"
  by (simp add: DaysInYear_def)

lemma YearFromTime_bounds_aux:
  fixes d q D0 D1 D2 D3 :: int
  assumes "146097 * q \<le> 400 * d" "400 * d < 146097 * q + 146097"
    and "146097 * q - 506 \<le> 400 * D1" "400 * D1 \<le> 146097 * q + 589"
    and "365 \<le> D1 - D0" "D2 - D1 \<le> 366" "365 \<le> D3 - D2" "365 \<le> D2 - D1"
  shows "D0 \<le> d" and "d < D3"
  using assms by linarith+

lemma YearFromTime_bounds:
  "DayFromYear (YearFromTime t) \<le> Day t \<and> Day t < DayFromYear (YearFromTime t + 1)"
proof -
  define d where "d = Day t"
  define q where "q = (400 * d) div 146097"
  define y where "y = 1970 + q"
  have q: "146097 * q \<le> 400 * d \<and> 400 * d < 146097 * q + 146097"
    unfolding q_def by (rule div_bounds) simp
  have est: "146097 * q - 506 \<le> 400 * DayFromYear y" "400 * DayFromYear y \<le> 146097 * q + 589"
    using DayFromYear_estimate [of y] by (simp_all add: y_def)
  have s0: "DayFromYear y = DayFromYear (y - 1) + DaysInYear (y - 1)"
    using DayFromYear_step [of "y - 1"] by simp
  have s1: "DayFromYear (y + 1) = DayFromYear y + DaysInYear y"
    by (rule DayFromYear_step)
  have s2: "DayFromYear (y + 1 + 1) = DayFromYear (y + 1) + DaysInYear (y + 1)"
    by (rule DayFromYear_step)
  have lo: "DayFromYear (y - 1) \<le> d" and hi: "d < DayFromYear (y + 1 + 1)"
    using q est s0 s1 s2 DaysInYear_range [of "y - 1"] DaysInYear_range [of y]
      DaysInYear_range [of "y + 1"]
    by (auto intro: YearFromTime_bounds_aux [where q = q and ?D1.0 = "DayFromYear y"
        and ?D2.0 = "DayFromYear (y + 1)"])
  have Y: "YearFromTime t = (if DayFromYear (y + 1) \<le> d then y + 1
      else if d < DayFromYear y then y - 1 else y)"
    by (simp add: YearFromTime_def Let_def d_def q_def y_def)
  show ?thesis
    using lo hi unfolding Y d_def [symmetric] by auto
qed

lemma DayFromYear_mono: "y \<le> y' \<Longrightarrow> DayFromYear y \<le> DayFromYear y'"
proof (induction y' rule: int_ge_induct)
  case base
  show ?case by simp
next
  case (step i)
  have "DayFromYear i \<le> DayFromYear (i + 1)"
    using DaysInYear_range [of i] by (auto simp: DayFromYear_step)
  with step show ?case by simp
qed

lemma YearFromTime_unique:
  assumes "DayFromYear y \<le> Day t" and "Day t < DayFromYear (y + 1)"
  shows "YearFromTime t = y"
proof (rule ccontr)
  assume ne: "YearFromTime t \<noteq> y"
  let ?Y = "YearFromTime t"
  from YearFromTime_bounds [of t]
  have b: "DayFromYear ?Y \<le> Day t" "Day t < DayFromYear (?Y + 1)"
    by simp_all
  from ne consider "?Y + 1 \<le> y" | "y + 1 \<le> ?Y" by linarith
  then show False
  proof cases
    case 1
    with DayFromYear_mono have "DayFromYear (?Y + 1) \<le> DayFromYear y" by blast
    with assms b show False by linarith
  next
    case 2
    with DayFromYear_mono have "DayFromYear (y + 1) \<le> DayFromYear ?Y" by blast
    with assms b show False by linarith
  qed
qed

lemma DayWithinYear_range:
  "0 \<le> DayWithinYear t \<and> DayWithinYear t < DaysInYear (YearFromTime t)"
  using YearFromTime_bounds [of t]
  by (simp add: DayWithinYear_def DayFromYear_step)

lemma DayWithinYear_leap:
  "0 \<le> DayWithinYear t \<and> DayWithinYear t < 365 + InLeapYear t"
  using DayWithinYear_range [of t] DaysInYear_range [of "YearFromTime t"]
  by (auto simp: InLeapYear_def)

lemma InLeapYear_range: "InLeapYear t = 0 \<or> InLeapYear t = 1"
  by (simp add: InLeapYear_def)

lemma MonthFromTime_range: "0 \<le> MonthFromTime t \<and> MonthFromTime t \<le> 11"
  by (simp add: MonthFromTime_def Let_def)

lemma DateFromTime_eq:
  "DateFromTime t = DayWithinYear t - DaysBeforeMonth (MonthFromTime t) (InLeapYear t) + 1"
  by (simp add: DateFromTime_def MonthFromTime_def DaysBeforeMonth_def Let_def)

lemma DateFromTime_range:
  "1 \<le> DateFromTime t \<and> DateFromTime t \<le> DaysInMonth (MonthFromTime t) (InLeapYear t)"
  using DayWithinYear_leap [of t] InLeapYear_range [of t]
  by (auto simp: DateFromTime_def MonthFromTime_def DaysInMonth_def Let_def)

lemma MakeDay_fields:
  "MakeDay (YearFromTime t) (MonthFromTime t) (DateFromTime t) = Day t"
  by (simp add: MakeDay_def DateFromTime_eq DayWithinYear_def InLeapYear_def)

lemma MakeTime_fields:
  "MakeTime (HourFromTime t) (MinFromTime t) (SecFromTime t) (msFromTime t) = TimeWithinDay t"
proof -
  define a where "a = t div 1000"
  define b where "b = a div 60"
  define c where "c = b div 60"
  define e where "e = c div 24"
  have t: "t = 1000 * a + t mod 1000" and a: "a = 60 * b + a mod 60"
    and b: "b = 60 * c + b mod 60" and c: "c = 24 * e + c mod 24"
    by (simp_all add: a_def b_def c_def e_def)
  have r: "0 \<le> t mod 1000" "t mod 1000 < 1000" "0 \<le> a mod 60" "a mod 60 < 60"
    "0 \<le> b mod 60" "b mod 60 < 60" "0 \<le> c mod 24" "c mod 24 < 24"
    by simp_all
  have b': "t div 60000 = b"
    using zdiv_zmult2_eq [of 60 t 1000] by (simp add: a_def b_def)
  have c': "t div 3600000 = c"
    using zdiv_zmult2_eq [of 60 t 60000] b' by (simp add: c_def)
  define R where "R = c mod 24 * 3600000 + b mod 60 * 60000 + a mod 60 * 1000 + t mod 1000"
  have R: "0 \<le> R" "R < 86400000"
    using r unfolding R_def by linarith+
  have "t = 86400000 * e + R"
    unfolding R_def using t a b c by linarith
  then have "t mod 86400000 = R"
    using R by (rule int_mod_pos_eq)
  then show ?thesis
    by (simp add: MakeTime_def TimeWithinDay_def msPerDay_def HourFromTime_def MinFromTime_def
        SecFromTime_def msFromTime_def b' c' R_def a_def [symmetric])
qed

lemma MakeDate_fields:
  "MakeDate (MakeDay (YearFromTime t) (MonthFromTime t) (DateFromTime t))
     (MakeTime (HourFromTime t) (MinFromTime t) (SecFromTime t) (msFromTime t)) = t"
  by (simp add: MakeDay_fields MakeTime_fields MakeDate_def Day_def TimeWithinDay_def)

lemma time_fields_range:
  "0 \<le> HourFromTime t \<and> HourFromTime t < 24 \<and> 0 \<le> MinFromTime t \<and> MinFromTime t < 60
   \<and> 0 \<le> SecFromTime t \<and> SecFromTime t < 60 \<and> 0 \<le> msFromTime t \<and> msFromTime t < 1000"
  by (simp add: HourFromTime_def MinFromTime_def SecFromTime_def msFromTime_def)

lemma YearFromTime_range:
  assumes "\<bar>t\<bar> \<le> 8640000000000000"
  shows "- 271821 \<le> YearFromTime t \<and> YearFromTime t \<le> 275760"
proof -
  have d: "- 100000000 \<le> Day t" "Day t \<le> 100000000"
    using assms zdiv_mono1 [of t 8640000000000000 86400000]
      zdiv_mono1 [of "- 8640000000000000" t 86400000]
    by (simp_all add: Day_def msPerDay_def)
  let ?Y = "YearFromTime t"
  from YearFromTime_bounds [of t] have b: "DayFromYear ?Y \<le> Day t" "Day t < DayFromYear (?Y + 1)"
    by simp_all
  from DayFromYear_estimate(1) [of ?Y] b(1) d(2)
  have "146097 * (?Y - 1970) - 506 \<le> 400 * 100000000" by linarith
  then have up: "?Y \<le> 275760" by simp
  from DayFromYear_estimate(2) [of "?Y + 1"] b(2) d(1)
  have "400 * (- 100000000) < 146097 * (?Y + 1 - 1970) + 589" by linarith
  then have "- 271821 \<le> ?Y" by simp
  with up show ?thesis by simp
qed

lemma digitChar_cases:
  "digitChar n \<in> set ''0123456789'' \<and> digitVal (digitChar n) = n mod 10"
proof -
  have "list_all (\<lambda>k. ''0123456789'' ! k \<in> set ''0123456789''
      \<and> digitVal (''0123456789'' ! k) = k) [0..<10]"
    by code_simp
  moreover have "n mod 10 \<in> set [0..<10]"
    by simp
  ultimately have "''0123456789'' ! (n mod 10) \<in> set ''0123456789''
      \<and> digitVal (''0123456789'' ! (n mod 10)) = n mod 10"
    unfolding list_all_iff by blast
  then show ?thesis
    by (simp add: digitChar_def)
qed

lemma isDigit_digitChar: "isDigit (digitChar n)"
  using digitChar_cases [of n] by (simp add: isDigit_def)

lemma digitVal_digitChar: "digitVal (digitChar n) = n mod 10"
  using digitChar_cases [of n] by simp

lemma digitChar_not_sign: "digitChar n \<noteq> CHR ''+'' \<and> digitChar n \<noteq> CHR ''-''"
  using digitChar_cases [of n] by auto

lemma length_digits: "length (digits w n) = w"
  by (induction w arbitrary: n) simp_all

lemma parseNat_snoc: "parseNat (s @ [c]) = 10 * parseNat s + digitVal c"
  by (simp add: parseNat_def)

lemma parseNat_digits: "parseNat (digits w n) = n mod 10 ^ w"
proof (induction w arbitrary: n)
  case 0
  show ?case by (simp add: parseNat_def)
next
  case (Suc w)
  have "parseNat (digits (Suc w) n) = 10 * ((n div 10) mod 10 ^ w) + n mod 10"
    by (simp add: parseNat_snoc Suc digitVal_digitChar)
  also have "\<dots> = n mod (10 * 10 ^ w)"
    by (simp add: mod_mult2_eq)
  finally show ?case by simp
qed

lemma digits_2: "digits 2 n = [digitChar (n div 10), digitChar n]"
  by (simp add: numeral_2_eq_2)

lemma digits_3: "digits 3 n = [digitChar (n div 10 div 10), digitChar (n div 10), digitChar n]"
  by (simp add: numeral_3_eq_3)

lemma digits_4:
  "digits 4 n = [digitChar (n div 10 div 10 div 10), digitChar (n div 10 div 10),
     digitChar (n div 10), digitChar n]"
proof -
  have "digits 4 n = digits (Suc 3) n" by simp
  also have "\<dots> = digits 3 (n div 10) @ [digitChar n]" by (rule digits.simps(2))
  finally show ?thesis by (simp add: digits_3)
qed

lemma digits_6:
  "digits 6 n = [digitChar (n div 10 div 10 div 10 div 10 div 10),
     digitChar (n div 10 div 10 div 10 div 10), digitChar (n div 10 div 10 div 10),
     digitChar (n div 10 div 10), digitChar (n div 10), digitChar n]"
proof -
  have "digits 6 n = digits (Suc (Suc 4)) n" by simp
  also have "\<dots> = (digits 4 (n div 10 div 10) @ [digitChar (n div 10)]) @ [digitChar n]"
    by (simp only: digits.simps(2))
  finally show ?thesis by (simp add: digits_4)
qed

lemma isISOString_toISOString: "isISOString (toISOString d)"
proof (cases d)
  case (Date t)
  have m: "matchChar CHR ''d'' (digitChar n)" for n
    by (simp add: matchChar_def isDigit_digitChar)
  consider "0 \<le> YearFromTime t \<and> YearFromTime t \<le> 9999" | "YearFromTime t < 0"
    | "9999 < YearFromTime t"
    by linarith
  then show ?thesis
  proof cases
    case 1
    then have "list_all2 matchChar ''dddd-dd-ddTdd:dd:dd.dddZ'' (toISOString (Date t))"
      by (simp add: yearString_def digits_2 digits_3 digits_4 m) (simp add: matchChar_def)
    then show ?thesis
      by (simp only: Date isISOString_def simp_thms)
  next
    case 2
    then have "list_all2 matchChar ''-dddddd-dd-ddTdd:dd:dd.dddZ'' (toISOString (Date t))"
      by (simp add: yearString_def digits_2 digits_3 digits_6 m) (simp add: matchChar_def)
    then show ?thesis
      by (simp only: Date isISOString_def simp_thms)
  next
    case 3
    then have "list_all2 matchChar ''+dddddd-dd-ddTdd:dd:dd.dddZ'' (toISOString (Date t))"
      by (simp add: yearString_def digits_2 digits_3 digits_6 m) (simp add: matchChar_def)
    then show ?thesis
      by (simp only: Date isISOString_def simp_thms)
  qed
qed

lemma parseNat_2: "parseNat [digitChar (n div 10), digitChar n] = n mod 100"
  using parseNat_digits [of 2 n] by (simp add: digits_2)

lemma parseNat_3:
  "parseNat [digitChar (n div 10 div 10), digitChar (n div 10), digitChar n] = n mod 1000"
  using parseNat_digits [of 3 n] by (simp add: digits_3)

lemma parseNat_4:
  "parseNat [digitChar (n div 10 div 10 div 10), digitChar (n div 10 div 10),
     digitChar (n div 10), digitChar n] = n mod 10000"
  using parseNat_digits [of 4 n] by (simp add: digits_4)

lemma parseNat_6:
  "parseNat [digitChar (n div 10 div 10 div 10 div 10 div 10),
     digitChar (n div 10 div 10 div 10 div 10), digitChar (n div 10 div 10 div 10),
     digitChar (n div 10 div 10), digitChar (n div 10), digitChar n] = n mod 1000000"
  using parseNat_digits [of 6 n] by (simp add: digits_6)

lemma nat_mod_small: "0 \<le> x \<Longrightarrow> x < int m \<Longrightarrow> nat x mod m = nat x"
  by (simp add: nat_less_iff)

lemma parseISO_toISOString:
  assumes "\<bar>t\<bar> \<le> 8640000000000000"
  shows "parseISO (toISOString (Date t)) = Some (Date t)"
proof -
  let ?Y = "YearFromTime t"
  define S where "S = toISOString (Date t)"
  define yN where "yN = nat \<bar>?Y\<bar>"
  define mN where "mN = nat (MonthFromTime t + 1)"
  define dN where "dN = nat (DateFromTime t)"
  define hN where "hN = nat (HourFromTime t)"
  define miN where "miN = nat (MinFromTime t)"
  define sN where "sN = nat (SecFromTime t)"
  define msN where "msN = nat (msFromTime t)"
  have iso: "isISOString S"
    unfolding S_def by (rule isISOString_toISOString)
  have yr: "- 271821 \<le> ?Y" "?Y \<le> 275760"
    using YearFromTime_range [OF assms] by simp_all
  have dim: "DaysInMonth (MonthFromTime t) (InLeapYear t) \<le> 31"
    using InLeapYear_range [of t] by (auto simp: DaysInMonth_def)
  have ints: "int mN = MonthFromTime t + 1" "int dN = DateFromTime t"
    "int hN = HourFromTime t" "int miN = MinFromTime t" "int sN = SecFromTime t"
    "int msN = msFromTime t"
    using MonthFromTime_range [of t] DateFromTime_range [of t] time_fields_range [of t]
    by (simp_all add: mN_def dN_def hN_def miN_def sN_def msN_def)
  have small: "mN mod 100 = mN" "dN mod 100 = dN" "hN mod 100 = hN" "miN mod 100 = miN"
    "sN mod 100 = sN" "msN mod 1000 = msN"
    using MonthFromTime_range [of t] DateFromTime_range [of t] time_fields_range [of t] dim
    unfolding mN_def dN_def hN_def miN_def sN_def msN_def
    by (simp_all add: nat_mod_small)
  have rg: "0 \<le> MonthFromTime t" "MonthFromTime t \<le> 11" "1 \<le> DateFromTime t"
    "DateFromTime t \<le> DaysInMonth (MonthFromTime t)
       (if DaysInYear (YearFromTime t) = 366 then 1 else 0)"
    "HourFromTime t < 24" "MinFromTime t < 60" "SecFromTime t < 60"
    using MonthFromTime_range [of t] DateFromTime_range [of t] time_fields_range [of t]
    by (simp_all add: InLeapYear_def)
  have natrg: "Suc 0 \<le> mN" "mN \<le> 12" "Suc 0 \<le> dN" "hN < 24" "miN < 60" "sN < 60"
    using rg time_fields_range [of t]
    unfolding mN_def dN_def hN_def miN_def sN_def
    by (simp_all add: nat_le_iff nat_less_iff le_nat_iff Suc_le_eq zless_nat_conj)
  have clip: "TimeClip (Some t) = Some t"
    using assms by (simp add: TimeClip_def)
  consider "0 \<le> ?Y \<and> ?Y \<le> 9999" | "?Y < 0" | "9999 < ?Y"
    by linarith
  then show ?thesis
  proof cases
    case 1
    then have y: "yN mod 10000 = yN" "int yN = ?Y"
      by (simp_all add: yN_def nat_mod_small)
    from 1 have s: "S = digits 4 yN @ ''-'' @ digits 2 mN @ ''-'' @ digits 2 dN
        @ ''T'' @ digits 2 hN @ '':'' @ digits 2 miN @ '':'' @ digits 2 sN
        @ ''.'' @ digits 3 msN @ ''Z''"
      by (simp add: S_def yearString_def yN_def mN_def dN_def hN_def miN_def sN_def msN_def)
    from iso have iso': "isISOString (digits 4 yN @ ''-'' @ digits 2 mN @ ''-'' @ digits 2 dN
        @ ''T'' @ digits 2 hN @ '':'' @ digits 2 miN @ '':'' @ digits 2 sN
        @ ''.'' @ digits 3 msN @ ''Z'')"
      by (simp only: s)
    have "parseISO S = map_option Date (TimeClip (Some (MakeDate
        (MakeDay ?Y (MonthFromTime t) (DateFromTime t))
        (MakeTime (HourFromTime t) (MinFromTime t) (SecFromTime t) (msFromTime t)))))"
      unfolding parseISO_def s using iso' rg natrg
      by (simp add: digits_2 digits_3 digits_4 parseNat_2 parseNat_3 parseNat_4 digitChar_not_sign
          Let_def small ints y)
    then show ?thesis
      by (simp add: MakeDate_fields S_def clip)
  next
    case 2
    with yr have y: "yN mod 1000000 = yN" "int yN = - ?Y"
      by (simp_all add: yN_def nat_mod_small)
    from 2 have s: "S = ''-'' @ digits 6 yN @ ''-'' @ digits 2 mN @ ''-'' @ digits 2 dN
        @ ''T'' @ digits 2 hN @ '':'' @ digits 2 miN @ '':'' @ digits 2 sN
        @ ''.'' @ digits 3 msN @ ''Z''"
      by (simp add: S_def yearString_def yN_def mN_def dN_def hN_def miN_def sN_def msN_def)
    from iso have iso': "isISOString (''-'' @ digits 6 yN @ ''-'' @ digits 2 mN @ ''-'' @ digits 2 dN
        @ ''T'' @ digits 2 hN @ '':'' @ digits 2 miN @ '':'' @ digits 2 sN
        @ ''.'' @ digits 3 msN @ ''Z'')"
      by (simp only: s)
    have "parseISO S = map_option Date (TimeClip (Some (MakeDate
        (MakeDay ?Y (MonthFromTime t) (DateFromTime t))
        (MakeTime (HourFromTime t) (MinFromTime t) (SecFromTime t) (msFromTime t)))))"
      unfolding parseISO_def s using iso' rg natrg
      by (simp add: digits_2 digits_3 digits_6 parseNat_2 parseNat_3 parseNat_6 digitChar_not_sign
          Let_def small ints y)
    then show ?thesis
      by (simp add: MakeDate_fields S_def clip)
  next
    case 3
    with yr have y: "yN mod 1000000 = yN" "int yN = ?Y"
      by (simp_all add: yN_def nat_mod_small)
    from 3 have s: "S = ''+'' @ digits 6 yN @ ''-'' @ digits 2 mN @ ''-'' @ digits 2 dN
        @ ''T'' @ digits 2 hN @ '':'' @ digits 2 miN @ '':'' @ digits 2 sN
        @ ''.'' @ digits 3 msN @ ''Z''"
      by (simp add: S_def yearString_def yN_def mN_def dN_def hN_def miN_def sN_def msN_def)
    from iso have iso': "isISOString (''+'' @ digits 6 yN @ ''-'' @ digits 2 mN @ ''-'' @ digits 2 dN
        @ ''T'' @ digits 2 hN @ '':'' @ digits 2 miN @ '':'' @ digits 2 sN
        @ ''.'' @ digits 3 msN @ ''Z'')"
      by (simp only: s)
    have "parseISO S = map_option Date (TimeClip (Some (MakeDate
        (MakeDay ?Y (MonthFromTime t) (DateFromTime t))
        (MakeTime (HourFromTime t) (MinFromTime t) (SecFromTime t) (msFromTime t)))))"
      unfolding parseISO_def s using iso' rg natrg
      by (simp add: digits_2 digits_3 digits_6 parseNat_2 parseNat_3 parseNat_6 digitChar_not_sign
          Let_def small ints y)
    then show ?thesis
      by (simp add: MakeDate_fields S_def clip)
  qed
qed

section \<open>Properties of the schema\<close>

lemma parseType_ZodString: "parseType ZodString v = None \<longleftrightarrow> isText v"
  by (cases v rule: isText.cases) simp_all

lemma parseType_ZodDate: "parseType ZodDate v = None \<longleftrightarrow> isValidDate v"
  by (cases v rule: isValidDate.cases) (simp_all split: option.split)

lemma parseType_ostring:
  "parseType (ZodOptional ZodString) v = None \<longleftrightarrow> v = None \<or> isText v"
  by (cases v rule: isText.cases) simp_all

lemma isText_iff: "isText v \<longleftrightarrow> (\<exists>s. v = Some (VString s))"
  by (cases v rule: isText.cases) simp_all

lemma isValidDate_iff:
  "isValidDate v \<longleftrightarrow> (\<exists>t. v = Some (VDate (Some t)) \<and> \<bar>t\<bar> \<le> 8640000000000000)"
  by (cases v rule: isValidDate.cases) (auto simp: TimeClip_def split: option.splits)

lemma objectIssues_postsShape:
  "objectIssues postsShape fm =
     fieldIssues ZodString ''title'' fm @ fieldIssues ZodString ''description'' fm
       @ fieldIssues ZodDate ''published'' fm
       @ fieldIssues (ZodOptional ZodString) ''og_image_path'' fm"
  by (simp add: objectIssues_def postsShape_def)

lemma fieldIssues_Nil: "fieldIssues t k fm = [] \<longleftrightarrow> parseType t (fm k) = None"
  by (simp add: fieldIssues_def split: option.split)

lemma fieldIssues_mem:
  "i \<in> set (fieldIssues t k fm) \<longleftrightarrow> (\<exists>c. parseType t (fm k) = Some c \<and> i = Issue k c)"
  by (auto simp: fieldIssues_def split: option.splits)

lemma objectIssues_Nil:
  "objectIssues postsShape fm = [] \<longleftrightarrow>
     isText (fm ''title'') \<and> isText (fm ''description'') \<and> isValidDate (fm ''published'')
     \<and> (fm ''og_image_path'' = None \<or> isText (fm ''og_image_path''))"
  by (simp add: objectIssues_postsShape fieldIssues_Nil parseType_ZodString parseType_ZodDate
      parseType_ostring del: parseType.simps)

lemma parsePost_Inr_iff:
  "(\<exists>p. parsePost fm = Inr p) \<longleftrightarrow> objectIssues postsShape fm = []"
  by (simp add: parsePost_def split: list.split)

lemma parsePost_Inl: "parsePost fm = Inl is \<longleftrightarrow> is \<noteq> [] \<and> objectIssues postsShape fm = is"
  by (auto simp: parsePost_def split: list.splits)

lemma parsePost_fields:
  assumes "parsePost fm = Inr p"
  shows "fm ''title'' = Some (VString (title p))"
    and "fm ''description'' = Some (VString (description p))"
    and "\<exists>t. published p = Date t \<and> fm ''published'' = Some (VDate (Some t))
           \<and> \<bar>t\<bar> \<le> 8640000000000000"
    and "fm ''og_image_path'' = map_option VString (og_image_path p)"
proof -
  from assms have nil: "objectIssues postsShape fm = []"
    using parsePost_Inr_iff by blast
  with assms have p: "p = \<lparr> title = asString (fm ''title''),
      description = asString (fm ''description''),
      published = asDate (fm ''published''),
      og_image_path = map_option (\<lambda>v. asString (Some v)) (fm ''og_image_path'') \<rparr>"
    by (simp add: parsePost_def)
  from nil have ok: "isText (fm ''title'')" "isText (fm ''description'')"
      "isValidDate (fm ''published'')"
      "fm ''og_image_path'' = None \<or> isText (fm ''og_image_path'')"
    by (simp_all add: objectIssues_Nil)
  from ok(1) p show "fm ''title'' = Some (VString (title p))"
    by (auto simp: isText_iff)
  from ok(2) p show "fm ''description'' = Some (VString (description p))"
    by (auto simp: isText_iff)
  from ok(3) p show "\<exists>t. published p = Date t \<and> fm ''published'' = Some (VDate (Some t))
      \<and> \<bar>t\<bar> \<le> 8640000000000000"
    by (auto simp: isValidDate_iff)
  from ok(4) p show "fm ''og_image_path'' = map_option VString (og_image_path p)"
    by (auto simp: isText_iff)
qed

lemma loadCollection_error:
  assumes "d \<in> set docs" and "parsePost (doc_frontmatter d) = Inl is"
  shows "\<exists>d' is'. d' \<in> set docs \<and> parsePost (doc_frontmatter d') = Inl is'
          \<and> loadCollection docs = Inl (InvalidFrontmatter (doc_slug d') is')"
  using assms
proof (induction docs)
  case Nil
  then show ?case by simp
next
  case (Cons x xs)
  show ?case
  proof (cases "parsePost (doc_frontmatter x)")
    case (Inl js)
    then show ?thesis by auto
  next
    case (Inr pd)
    with Cons.prems have "d \<in> set xs" by auto
    with Cons obtain d' is' where "d' \<in> set xs" "parsePost (doc_frontmatter d') = Inl is'"
        "loadCollection xs = Inl (InvalidFrontmatter (doc_slug d') is')"
      by blast
    with Inr show ?thesis by auto
  qed
qed

lemma loadCollection_first_error:
  assumes "loadCollection pre = Inr es" and "parsePost (doc_frontmatter d) = Inl is"
  shows "loadCollection (pre @ d # post) = Inl (InvalidFrontmatter (doc_slug d) is)"
  using assms
  by (induction pre arbitrary: es) (auto split: sum.splits)

lemma loadCollection_dates:
  assumes "loadCollection docs = Inr es" and "e \<in> set es"
  shows "\<exists>t. published (data e) = Date t \<and> \<bar>t\<bar> \<le> 8640000000000000"
  using assms
proof (induction docs arbitrary: es)
  case Nil
  then show ?case by simp
next
  case (Cons d ds)
  from Cons.prems(1) obtain pd es' where pd: "parsePost (doc_frontmatter d) = Inr pd"
    and es': "loadCollection ds = Inr es'"
    and es: "es = \<lparr> slug = doc_slug d, data = pd, body = doc_body d \<rparr> # es'"
    by (auto split: sum.splits)
  show ?case
  proof (cases "e \<in> set es'")
    case True
    with es' show ?thesis by (rule Cons.IH)
  next
    case False
    with Cons.prems(2) es have "data e = pd" by auto
    with parsePost_fields(3) [OF pd] show ?thesis by auto
  qed
qed

lemma blogPage_Inl:
  "loadCollection docs = Inl e \<Longrightarrow> blogPage ht docs = Inl e"
  by (simp add: blogPage_def getCollection_def)

lemma blogPage_Inr:
  "loadCollection docs = Inr es \<Longrightarrow>
     blogPage ht docs = Inr (map (renderItem ht) (sortByPublished es))"
proof -
  have "filter (\<lambda>e. toBoolean (published (data e))) es = es"
    by (rule filter_True) (metis toBoolean.simps date.exhaust)
  then show "loadCollection docs = Inr es \<Longrightarrow>
     blogPage ht docs = Inr (map (renderItem ht) (sortByPublished es))"
    by (simp add: blogPage_def getCollection_def)
qed

section \<open>The claims about sorting\<close>

text \<open>
  C5. The output of \<open>sortByPublished\<close> is ordered by \<open>published\<close> descending, most
  recent first: for all entries \<open>A\<close>, \<open>B\<close> of the input with \<open>A\<close> published strictly
  later than \<open>B\<close>, \<open>A\<close> precedes \<open>B\<close> in the output, and no occurrence of \<open>B\<close>
  comes before one of \<open>A\<close>.
\<close>

theorem sortByPublished_newest_first:
  "sorted_wrt (\<lambda>a b. Number (published (data b)) \<le> Number (published (data a)))
     (sortByPublished ps)
   \<and> (\<forall>A B. A \<in> set ps \<and> B \<in> set ps
          \<and> Number (published (data B)) < Number (published (data A))
        \<longrightarrow> precedes A B (sortByPublished ps) \<and> \<not> precedes B A (sortByPublished ps))"
proof (intro conjI allI impI)
  let ?R = "\<lambda>a b :: 'a entry_scheme.
    Number (published (data b)) \<le> Number (published (data a))"
  show s: "sorted_wrt ?R (sortByPublished ps)"
    by (rule sortByPublished_sorted)
  fix A B :: "'a entry_scheme"
  assume h: "A \<in> set ps \<and> B \<in> set ps
    \<and> Number (published (data B)) < Number (published (data A))"
  then have mem: "A \<in> set (sortByPublished ps)" "B \<in> set (sortByPublished ps)"
    by (simp_all add: sortByPublished_sort_key)
  from h have nR: "\<not> ?R B A" and ne: "A \<noteq> B" by auto
  from sorted_wrt_precedes [OF s mem nR ne] show "precedes A B (sortByPublished ps)" .
  from sorted_wrt_not_precedes [OF s nR] show "\<not> precedes B A (sortByPublished ps)" .
qed

theorem sortByPublished_newest_first_witness:
  "postB \<in> set [postA, postB] \<and> postA \<in> set [postA, postB]
   \<and> Number (published (data postA)) < Number (published (data postB))
   \<and> precedes postB postA (sortByPublished [postA, postB])
   \<and> \<not> precedes postA postB (sortByPublished [postA, postB])
   \<and> sortByPublished [postA, postB] = [postB, postA]"
proof -
  have h: "postB \<in> set [postA, postB] \<and> postA \<in> set [postA, postB]
      \<and> Number (published (data postA)) < Number (published (data postB))"
    by (simp add: postA_def postB_def mkPost_def)
  have e: "sortByPublished [postA, postB] = [postB, postA]"
    by (simp add: sortByPublished_def toSorted_def comparePublished_def postA_def postB_def
        mkPost_def)
  from sortByPublished_newest_first [of "[postA, postB]"] h e show ?thesis
    by blast
qed

text \<open>
  C6. \<open>sortByPublished\<close> does not mutate its input: after the call the input array holds
  the same entries in the same order (as does every other array of the store), and the
  result is a new array, at an address that was not in use, holding the sorted entries.
\<close>

theorem sortByPublished_ref_frame:
  assumes "r < length h"
  shows "\<exists>r' h'. sortByPublished_ref r h = Some (r', h')
           \<and> h' ! r = h ! r
           \<and> (\<forall>a < length h. h' ! a = h ! a)
           \<and> r' \<noteq> r \<and> length h \<le> r' \<and> r' < length h'
           \<and> h' ! r' = sortByPublished (h ! r)"
  using assms
  by (simp add: sortByPublished_ref_def toSorted_ref_def sortByPublished_def nth_append)

theorem sortByPublished_ref_frame_witness:
  "(0::nat) < length [[postA, postB]]
   \<and> sortByPublished_ref 0 [[postA, postB]] = Some (1, [[postA, postB], [postB, postA]])"
proof -
  have h: "(0::nat) < length [[postA, postB]]" by simp
  have e: "sortByPublished [postA, postB] = [postB, postA]"
    by (simp add: sortByPublished_def toSorted_def comparePublished_def postA_def postB_def
        mkPost_def)
  from sortByPublished_ref_frame [OF h] obtain r' h' where
      "sortByPublished_ref 0 [[postA, postB]] = Some (r', h')"
    by blast
  with h e show ?thesis
    by (simp add: sortByPublished_ref_def toSorted_ref_def sortByPublished_def)
qed

text \<open>
  C7. \<open>sortByPublished\<close> is idempotent: sorting its own output changes nothing.
\<close>

theorem sortByPublished_idempotent:
  "sortByPublished (sortByPublished ps) = sortByPublished ps"
proof -
  let ?k = "\<lambda>p :: 'a entry_scheme. - Number (published (data p))"
  have "sorted (map ?k (sort_key ?k ps))"
    by simp
  then have "sort_key ?k (sort_key ?k ps) = sort_key ?k ps"
    by (rule sort_key_id_if_sorted)
  then show ?thesis
    by (simp add: sortByPublished_sort_key)
qed

text \<open>
  C9. \<open>sortByPublished\<close> is stable: the entries of any one \<open>published\<close> date come out
  in their input order, so that when \<open>A\<close> and \<open>B\<close> have equal dates and \<open>A\<close> precedes
  \<open>B\<close> in the input, \<open>A\<close> precedes \<open>B\<close> in the output. Calling it again on the same
  (unmutated) input array yields an array with the same entries in the same order.
\<close>

theorem sortByPublished_stable:
  "(\<forall>t. filter (\<lambda>p. published (data p) = t) (sortByPublished ps)
         = filter (\<lambda>p. published (data p) = t) ps)
   \<and> (\<forall>A B. published (data A) = published (data B) \<and> precedes A B ps
        \<longrightarrow> precedes A B (sortByPublished ps))
   \<and> (\<forall>r h. r < length h \<and> h ! r = ps
        \<longrightarrow> (\<exists>r1 h1 r2 h2. sortByPublished_ref r h = Some (r1, h1)
               \<and> sortByPublished_ref r h1 = Some (r2, h2)
               \<and> r1 \<noteq> r2 \<and> h2 ! r2 = h2 ! r1 \<and> h2 ! r1 = sortByPublished ps))"
proof (intro conjI allI impI)
  let ?k = "\<lambda>p :: 'a entry_scheme. - Number (published (data p))"
  have key: "(published (data p) = t) = (?k p = - Number t)" for p :: "'a entry_scheme" and t
    by (cases "published (data p)"; cases t) simp
  show st: "filter (\<lambda>p. published (data p) = t) (sortByPublished ps)
      = filter (\<lambda>p. published (data p) = t) ps" for t
    by (simp only: key sortByPublished_sort_key sort_key_stable)
  show "precedes A B (sortByPublished ps)"
    if h: "published (data A) = published (data B) \<and> precedes A B ps" for A B
  proof -
    let ?P = "\<lambda>p :: 'a entry_scheme. published (data p) = published (data A)"
    from h have "precedes A B (filter ?P ps)"
      by (simp add: precedes_filter)
    then have "precedes A B (filter ?P (sortByPublished ps))"
      by (simp only: st)
    with h show ?thesis
      by (simp add: precedes_filter)
  qed
  show "\<exists>r1 h1 r2 h2. sortByPublished_ref r h = Some (r1, h1)
      \<and> sortByPublished_ref r h1 = Some (r2, h2)
      \<and> r1 \<noteq> r2 \<and> h2 ! r2 = h2 ! r1 \<and> h2 ! r1 = sortByPublished ps"
    if "r < length h \<and> h ! r = ps" for r h
    using that
    by (simp add: sortByPublished_ref_def toSorted_ref_def sortByPublished_def nth_append)
qed

theorem sortByPublished_stable_witness:
  "published (data postA) = published (data postA2)
   \<and> precedes postA postA2 [postB, postA, postA2]
   \<and> precedes postA postA2 (sortByPublished [postB, postA, postA2])
   \<and> precedes postA2 postA [postA2, postB, postA]
   \<and> precedes postA2 postA (sortByPublished [postA2, postB, postA])
   \<and> (0::nat) < length [[postA, postA2]]
   \<and> sortByPublished_ref 0 [[postA, postA2]] = Some (1, [[postA, postA2], [postA, postA2]])"
proof -
  have h1: "published (data postA) = published (data postA2)
      \<and> precedes postA postA2 [postB, postA, postA2]"
    by (simp add: postA_def postA2_def postB_def mkPost_def)
  have h2: "published (data postA2) = published (data postA)
      \<and> precedes postA2 postA [postA2, postB, postA]"
    by (simp add: postA_def postA2_def postB_def mkPost_def)
  have e: "sortByPublished_ref 0 [[postA, postA2]]
      = Some (1, [[postA, postA2], [postA, postA2]])"
    by (simp add: sortByPublished_ref_def toSorted_ref_def toSorted_def comparePublished_def
        postA_def postA2_def mkPost_def)
  from sortByPublished_stable [of "[postB, postA, postA2]"] h1
  have c1: "precedes postA postA2 (sortByPublished [postB, postA, postA2])"
    by blast
  from sortByPublished_stable [of "[postA2, postB, postA]"] h2
  have c2: "precedes postA2 postA (sortByPublished [postA2, postB, postA])"
    by blast
  from h1 h2 e c1 c2 show ?thesis
    by simp
qed

text \<open>
  C10. The output of \<open>sortByPublished\<close> is a permutation of its input: the same entries
  with the same multiplicities, hence the same length and the same set of entries. (This
  holds of \<open>toSorted\<close> whatever the comparator.)
\<close>

theorem sortByPublished_permutation:
  "mset (sortByPublished ps) = mset ps
   \<and> length (sortByPublished ps) = length ps
   \<and> set (sortByPublished ps) = set ps"
proof -
  have m: "mset (sortByPublished ps) = mset ps"
    unfolding sortByPublished_def by (rule mset_toSorted)
  from m have "size (mset (sortByPublished ps)) = size (mset ps)"
    by simp
  then have l: "length (sortByPublished ps) = length ps"
    by (simp only: size_mset)
  from m have "set_mset (mset (sortByPublished ps)) = set_mset (mset ps)"
    by simp
  then have "set (sortByPublished ps) = set ps"
    by (simp only: set_mset_mset)
  with m l show ?thesis
    by simp
qed

section \<open>The claims about the schema and the index\<close>

text \<open>
  C1, as the code has it. The schema declares \<open>published\<close> with \<open>z.date()\<close>, a required
  field. A document whose frontmatter lacks \<open>published\<close> is rejected: validation
  reports that a date was expected at \<open>published\<close> and \<open>undefined\<close> received. The build
  of any collection that holds such a document fails, so the document appears in no
  listing.
\<close>

theorem missing_published_rejected:
  assumes "fm ''published'' = None"
  shows "(\<exists>is. parsePost fm = Inl is
            \<and> Issue ''published'' (invalid_type PDate PUndefined) \<in> set is)
         \<and> (\<forall>ht docs d. d \<in> set docs \<and> doc_frontmatter d = fm
               \<longrightarrow> (\<exists>e. blogPage ht docs = Inl e))"
proof -
  have "fieldIssues ZodDate ''published'' fm
      = [Issue ''published'' (invalid_type PDate PUndefined)]"
    using assms by (simp add: fieldIssues_def)
  then have mem: "Issue ''published'' (invalid_type PDate PUndefined)
      \<in> set (objectIssues postsShape fm)"
    by (simp add: objectIssues_postsShape)
  then have "objectIssues postsShape fm \<noteq> []"
    by auto
  with mem have rej: "parsePost fm = Inl (objectIssues postsShape fm)"
    by (simp add: parsePost_Inl)
  have "\<exists>e. blogPage ht docs = Inl e"
    if "d \<in> set docs \<and> doc_frontmatter d = fm" for ht docs d
  proof -
    from that rej have "parsePost (doc_frontmatter d) = Inl (objectIssues postsShape fm)"
      by simp
    with that obtain e where "loadCollection docs = Inl e"
      using loadCollection_error by blast
    then show ?thesis
      by (auto simp: blogPage_Inl)
  qed
  with rej mem show ?thesis
    by blast
qed

theorem missing_published_rejected_witness:
  "doc_frontmatter docC ''published'' = None
   \<and> parsePost (doc_frontmatter docC)
       = Inl [Issue ''published'' (invalid_type PDate PUndefined)]
   \<and> (\<exists>e. blogPage (\<lambda>d. []) [docA, docB, docC] = Inl e)"
proof -
  have h: "doc_frontmatter docC ''published'' = None"
    by (simp add: docC_def)
  have e: "parsePost (doc_frontmatter docC)
      = Inl [Issue ''published'' (invalid_type PDate PUndefined)]"
    by (simp add: docC_def parsePost_def objectIssues_postsShape fieldIssues_def)
  from missing_published_rejected [of "doc_frontmatter docC", OF h]
  have "docC \<in> set [docA, docB, docC] \<and> doc_frontmatter docC = doc_frontmatter docC
      \<longrightarrow> (\<exists>e. blogPage (\<lambda>d. []) [docA, docB, docC] = Inl e)"
    by blast
  then have "\<exists>e. blogPage (\<lambda>d. []) [docA, docB, docC] = Inl e"
    by simp
  with h e show ?thesis
    by simp
qed

text \<open>
  The claim C1 as stated fails: the specification's own draft, with a title and a
  description but no \<open>published\<close>, is not accepted.
\<close>

theorem draft_accepted_counterexample:
  "parsePost [''title'' \<mapsto> VString ''C'', ''description'' \<mapsto> VString ''d3'']
     = Inl [Issue ''published'' (invalid_type PDate PUndefined)]"
  by (simp add: parsePost_def objectIssues_postsShape fieldIssues_def)

text \<open>
  C2, as the code has it. A document with a text \<open>title\<close>, a text \<open>description\<close> and
  a valid date \<open>published\<close> (a \<open>Date\<close> whose time value is in range) is accepted
  whether \<open>og_image_path\<close> is absent or a text, and its typed data carries exactly these
  values.
\<close>

theorem parsePost_accepts:
  assumes "fm ''title'' = Some (VString t)"
    and "fm ''description'' = Some (VString d)"
    and "fm ''published'' = Some (VDate (Some p))" and "\<bar>p\<bar> \<le> 8640000000000000"
    and "fm ''og_image_path'' = map_option VString g"
  shows "parsePost fm
     = Inr \<lparr> title = t, description = d, published = Date p, og_image_path = g \<rparr>"
proof -
  from assms have "objectIssues postsShape fm = []"
    by (cases g) (simp_all add: objectIssues_Nil TimeClip_def)
  moreover have "map_option (\<lambda>v. asString (Some v)) (fm ''og_image_path'') = g"
    using assms(5) by (cases g) simp_all
  ultimately show ?thesis
    using assms(1-3) by (simp add: parsePost_def)
qed

theorem parsePost_accepts_witness:
  "parsePost (doc_frontmatter docA)
     = Inr \<lparr> title = ''A'', description = ''d1'', published = Date 1704628800000,
             og_image_path = None \<rparr>
   \<and> parsePost (doc_frontmatter docSlack)
     = Inr \<lparr> title = ''Verifying Slack Requests in Phoenix'',
             description = ''Using signature verification'',
             published = Date 1714219200000,
             og_image_path = Some ''/og/slack-verification.png'' \<rparr>"
  using parsePost_accepts [of "doc_frontmatter docA" "''A''" "''d1''" 1704628800000 None]
    parsePost_accepts [of "doc_frontmatter docSlack" "''Verifying Slack Requests in Phoenix''"
      "''Using signature verification''" 1714219200000 "Some ''/og/slack-verification.png''"]
  by (simp add: docA_def docSlack_def)

text \<open>
  The claim C2 as stated fails: a text title and a text description do not suffice when
  \<open>published\<close> is absent.
\<close>

theorem optional_published_counterexample:
  "parsePost [''title'' \<mapsto> VString ''Hello'', ''description'' \<mapsto> VString ''World'',
              ''og_image_path'' \<mapsto> VString ''/og/hello.png'']
     = Inl [Issue ''published'' (invalid_type PDate PUndefined)]"
  by (simp add: parsePost_def objectIssues_postsShape fieldIssues_def)

text \<open>
  C3, as the code has it. The schema requires \<open>title\<close> and \<open>description\<close> to be text
  of any length: validation reports an issue at \<open>title\<close> (at \<open>description\<close>) exactly
  when that field is absent or is not a text, and a document whose title and description
  are the empty string is accepted when its date is valid.
\<close>

theorem title_description_text_only:
  "((\<exists>c. Issue ''title'' c \<in> set (objectIssues postsShape fm)) \<longleftrightarrow> \<not> isText (fm ''title''))
   \<and> ((\<exists>c. Issue ''description'' c \<in> set (objectIssues postsShape fm))
        \<longleftrightarrow> \<not> isText (fm ''description''))
   \<and> (fm ''title'' = Some (VString []) \<and> fm ''description'' = Some (VString [])
        \<and> isValidDate (fm ''published'') \<and> fm ''og_image_path'' = None
      \<longrightarrow> parsePost fm = Inr \<lparr> title = [], description = [],
            published = asDate (fm ''published''), og_image_path = None \<rparr>)"
proof (intro conjI impI)
  have mem: "(\<exists>c. Issue k c \<in> set (fieldIssues t k' fm))
      \<longleftrightarrow> k = k' \<and> (\<exists>c. parseType t (fm k) = Some c)" for k k' t
    by (auto simp: fieldIssues_mem)
  have str: "(\<exists>c. parseType ZodString v = Some c) \<longleftrightarrow> \<not> isText v" for v
    using parseType_ZodString [of v] by (cases "parseType ZodString v") simp_all
  show "(\<exists>c. Issue ''title'' c \<in> set (objectIssues postsShape fm))
      \<longleftrightarrow> \<not> isText (fm ''title'')"
    by (simp add: objectIssues_postsShape ex_disj_distrib mem str del: parseType.simps)
  show "(\<exists>c. Issue ''description'' c \<in> set (objectIssues postsShape fm))
      \<longleftrightarrow> \<not> isText (fm ''description'')"
    by (simp add: objectIssues_postsShape ex_disj_distrib mem str del: parseType.simps)
  assume h: "fm ''title'' = Some (VString []) \<and> fm ''description'' = Some (VString [])
      \<and> isValidDate (fm ''published'') \<and> fm ''og_image_path'' = None"
  then have "objectIssues postsShape fm = []"
    by (simp add: objectIssues_Nil)
  with h show "parsePost fm = Inr \<lparr> title = [], description = [],
      published = asDate (fm ''published''), og_image_path = None \<rparr>"
    by (simp add: parsePost_def)
qed

theorem title_description_text_only_witness:
  "isText ([''title'' \<mapsto> VString [], ''description'' \<mapsto> VNumber 3] ''title'')
   \<and> \<not> isText ([''title'' \<mapsto> VString [], ''description'' \<mapsto> VNumber 3] ''description'')
   \<and> \<not> (\<exists>c. Issue ''title'' c \<in> set (objectIssues postsShape
            [''title'' \<mapsto> VString [], ''description'' \<mapsto> VNumber 3]))
   \<and> (\<exists>c. Issue ''description'' c \<in> set (objectIssues postsShape
            [''title'' \<mapsto> VString [], ''description'' \<mapsto> VNumber 3]))
   \<and> isValidDate (Some (VDate (Some 1704628800000)))
   \<and> parsePost [''title'' \<mapsto> VString [], ''description'' \<mapsto> VString [],
                  ''published'' \<mapsto> VDate (Some 1704628800000)]
       = Inr \<lparr> title = [], description = [], published = Date 1704628800000,
               og_image_path = None \<rparr>"
  using title_description_text_only [of "[''title'' \<mapsto> VString [], ''description'' \<mapsto> VNumber 3]"]
    title_description_text_only [of "[''title'' \<mapsto> VString [], ''description'' \<mapsto> VString [],
      ''published'' \<mapsto> VDate (Some 1704628800000)]"]
  by (simp add: TimeClip_def)

text \<open>
  The claim C3 as stated fails: a document whose title and description are empty strings
  passes validation.
\<close>

theorem empty_title_counterexample:
  "parsePost [''title'' \<mapsto> VString [], ''description'' \<mapsto> VString [],
              ''published'' \<mapsto> VDate (Some 0)]
     = Inr \<lparr> title = [], description = [], published = Date 0, og_image_path = None \<rparr>"
  by (simp add: parsePost_def objectIssues_postsShape fieldIssues_def TimeClip_def)

text \<open>
  C4, as the code has it. A document whose \<open>title\<close> or \<open>description\<close> is missing or is
  not a text is rejected with an issue at that field (expected a string, received the
  type found), and the build of a collection fails at its first rejected document with
  an error that names the document and carries its issues. A document is accepted if
  and only if \<open>title\<close> and \<open>description\<close> are texts, \<open>published\<close> is a valid date
  and \<open>og_image_path\<close> is absent or a text.
\<close>

theorem schema_violation_fails_build:
  "((\<exists>p. parsePost fm = Inr p) \<longleftrightarrow>
      isText (fm ''title'') \<and> isText (fm ''description'') \<and> isValidDate (fm ''published'')
      \<and> (fm ''og_image_path'' = None \<or> isText (fm ''og_image_path'')))
   \<and> (\<not> isText (fm ''title'') \<longrightarrow>
        (\<exists>is. parsePost fm = Inl is
           \<and> Issue ''title'' (invalid_type PString (getParsedType (fm ''title''))) \<in> set is))
   \<and> (\<not> isText (fm ''description'') \<longrightarrow>
        (\<exists>is. parsePost fm = Inl is
           \<and> Issue ''description'' (invalid_type PString (getParsedType (fm ''description'')))
               \<in> set is))
   \<and> (\<forall>ht pre d post es is.
        loadCollection pre = Inr es \<and> doc_frontmatter d = fm \<and> parsePost fm = Inl is
        \<longrightarrow> blogPage ht (pre @ d # post) = Inl (InvalidFrontmatter (doc_slug d) is))
   \<and> (\<forall>ht docs d is. d \<in> set docs \<and> doc_frontmatter d = fm \<and> parsePost fm = Inl is
        \<longrightarrow> (\<exists>d' is'. d' \<in> set docs \<and> parsePost (doc_frontmatter d') = Inl is'
              \<and> blogPage ht docs = Inl (InvalidFrontmatter (doc_slug d') is')))"
proof (intro conjI allI impI)
  show "(\<exists>p. parsePost fm = Inr p) \<longleftrightarrow>
      isText (fm ''title'') \<and> isText (fm ''description'') \<and> isValidDate (fm ''published'')
      \<and> (fm ''og_image_path'' = None \<or> isText (fm ''og_image_path''))"
    by (simp only: parsePost_Inr_iff objectIssues_Nil)
  have str: "fieldIssues ZodString k fm = [Issue k (invalid_type PString (getParsedType (fm k)))]"
    if "\<not> isText (fm k)" for k
    using that by (cases "fm k" rule: isText.cases) (simp_all add: fieldIssues_def)
  have rej: "\<exists>is. parsePost fm = Inl is \<and> i \<in> set is"
    if "i \<in> set (objectIssues postsShape fm)" for i
  proof -
    from that have "objectIssues postsShape fm \<noteq> []" by auto
    with that show ?thesis by (simp add: parsePost_Inl)
  qed
  show "\<exists>is. parsePost fm = Inl is
      \<and> Issue ''title'' (invalid_type PString (getParsedType (fm ''title''))) \<in> set is"
    if "\<not> isText (fm ''title'')"
    by (rule rej) (simp add: objectIssues_postsShape str [OF that])
  show "\<exists>is. parsePost fm = Inl is
      \<and> Issue ''description'' (invalid_type PString (getParsedType (fm ''description'')))
          \<in> set is"
    if "\<not> isText (fm ''description'')"
    by (rule rej) (simp add: objectIssues_postsShape str [OF that])
  show "blogPage ht (pre @ d # post) = Inl (InvalidFrontmatter (doc_slug d) is)"
    if "loadCollection pre = Inr es \<and> doc_frontmatter d = fm \<and> parsePost fm = Inl is"
    for ht pre d post es "is"
    using that by (simp add: blogPage_Inl loadCollection_first_error)
  show "\<exists>d' is'. d' \<in> set docs \<and> parsePost (doc_frontmatter d') = Inl is'
      \<and> blogPage ht docs = Inl (InvalidFrontmatter (doc_slug d') is')"
    if h: "d \<in> set docs \<and> doc_frontmatter d = fm \<and> parsePost fm = Inl is"
    for ht docs d "is"
  proof -
    from h have "d \<in> set docs" "parsePost (doc_frontmatter d) = Inl is"
      by simp_all
    from loadCollection_error [OF this] show ?thesis
      by (auto simp: blogPage_Inl)
  qed
qed

theorem schema_violation_fails_build_witness:
  "\<not> isText (doc_frontmatter docUntitled ''title'')
   \<and> parsePost (doc_frontmatter docUntitled)
       = Inl [Issue ''title'' (invalid_type PString PUndefined)]
   \<and> loadCollection [docA] = Inr [postA\<lparr>data := (data postA)\<lparr>description := ''d1''\<rparr>\<rparr>]
   \<and> blogPage (\<lambda>d. []) ([docA] @ docUntitled # [docB])
       = Inl (InvalidFrontmatter ''untitled'' [Issue ''title'' (invalid_type PString PUndefined)])"
proof -
  have h: "\<not> isText (doc_frontmatter docUntitled ''title'')"
    by (simp add: docUntitled_def)
  have e: "parsePost (doc_frontmatter docUntitled)
      = Inl [Issue ''title'' (invalid_type PString PUndefined)]"
    by (simp add: docUntitled_def parsePost_def objectIssues_postsShape fieldIssues_def
        TimeClip_def)
  have l: "loadCollection [docA] = Inr [postA\<lparr>data := (data postA)\<lparr>description := ''d1''\<rparr>\<rparr>]"
    by (simp add: docA_def postA_def mkPost_def parsePost_def objectIssues_postsShape
        fieldIssues_def TimeClip_def)
  from schema_violation_fails_build [of "doc_frontmatter docUntitled"] e l
  have "blogPage (\<lambda>d. []) ([docA] @ docUntitled # [docB])
      = Inl (InvalidFrontmatter (doc_slug docUntitled)
          [Issue ''title'' (invalid_type PString PUndefined)])"
    by blast
  with h e l show ?thesis
    by (simp add: docUntitled_def)
qed

text \<open>
  The claim C4 as stated fails in its "if and only if": a document whose title and
  description are present and are texts, and which has no \<open>published\<close> field at all,
  is rejected, for the schema requires \<open>published\<close> as well.
\<close>

theorem required_fields_counterexample:
  "isText ([''title'' \<mapsto> VString ''Post'', ''description'' \<mapsto> VString ''About''] ''title'')
   \<and> isText ([''title'' \<mapsto> VString ''Post'', ''description'' \<mapsto> VString ''About'']
         ''description'')
   \<and> [''title'' \<mapsto> VString ''Post'', ''description'' \<mapsto> VString ''About''] ''published''
       = None
   \<and> parsePost [''title'' \<mapsto> VString ''Post'', ''description'' \<mapsto> VString ''About'']
       = Inl [Issue ''published'' (invalid_type PDate PUndefined)]"
  by (simp add: parsePost_def objectIssues_postsShape fieldIssues_def)

text \<open>
  C8. When the build succeeds, the page lists the loaded posts in the order of
  \<open>sortByPublished\<close>, one item per post; each item's link is \<open>/blog/\<close> followed by the
  post's slug, and its \<open>datetime\<close> is the post's \<open>published\<close> date as
  \<open>toISOString\<close> writes it: a string of the standard's date-time shape, which reads
  back as that very date.
\<close>

theorem blogPage_items:
  assumes "blogPage ht docs = Inr items"
  shows "\<exists>posts. loadCollection docs = Inr posts
           \<and> length items = length posts
           \<and> (\<forall>i < length items.
                 href (items ! i) = ''/blog/'' @ slug (sortByPublished posts ! i)
                 \<and> datetime (items ! i)
                     = toISOString (published (data (sortByPublished posts ! i)))
                 \<and> isISOString (datetime (items ! i))
                 \<and> parseISO (datetime (items ! i))
                     = Some (published (data (sortByPublished posts ! i))))"
proof (cases "loadCollection docs")
  case (Inl e)
  with assms show ?thesis
    by (simp add: blogPage_Inl)
next
  case (Inr posts)
  with assms have items: "items = map (renderItem ht) (sortByPublished posts)"
    by (simp add: blogPage_Inr)
  have len: "length (sortByPublished posts) = length posts"
    by (simp add: sortByPublished_sort_key)
  have rt: "parseISO (toISOString (published (data (sortByPublished posts ! i))))
      = Some (published (data (sortByPublished posts ! i)))" if "i < length posts" for i
  proof -
    from that len have "sortByPublished posts ! i \<in> set (sortByPublished posts)"
      by simp
    then have "sortByPublished posts ! i \<in> set posts"
      by (simp add: sortByPublished_sort_key)
    with Inr obtain t where "published (data (sortByPublished posts ! i)) = Date t"
        "\<bar>t\<bar> \<le> 8640000000000000"
      using loadCollection_dates by blast
    then show ?thesis
      by (simp only: parseISO_toISOString)
  qed
  from Inr items len rt show ?thesis
    by (simp add: renderItem_def isISOString_toISOString)
qed

theorem blogPage_items_witness:
  "blogPage (\<lambda>d. []) [docA, docB]
     = Inr [\<lparr> href = ''/blog/b'', datetime = ''2024-03-03T12:00:00.000Z'', time_text = [],
              heading = ''B'', summary = ''d2'' \<rparr>,
            \<lparr> href = ''/blog/a'', datetime = ''2024-01-07T12:00:00.000Z'', time_text = [],
              heading = ''A'', summary = ''d1'' \<rparr>]
   \<and> (\<exists>posts. loadCollection [docA, docB] = Inr posts \<and> length posts = 2)
   \<and> parseISO ''2024-03-03T12:00:00.000Z'' = Some (Date 1709467200000)"
proof -
  have p: "parseISO ''2024-03-03T12:00:00.000Z'' = Some (Date 1709467200000)"
    by code_simp
  have e: "blogPage (\<lambda>d. []) [docA, docB]
     = Inr [\<lparr> href = ''/blog/b'', datetime = ''2024-03-03T12:00:00.000Z'', time_text = [],
              heading = ''B'', summary = ''d2'' \<rparr>,
            \<lparr> href = ''/blog/a'', datetime = ''2024-01-07T12:00:00.000Z'', time_text = [],
              heading = ''A'', summary = ''d1'' \<rparr>]"
    by code_simp
  from blogPage_items [OF e] e p show ?thesis
    by auto
qed

end
